theory Spec2Isabelle
  imports Main "HOL-Library.Sublist"
begin

section \<open>Python values\<close>

text \<open>
  A Python \<open>str\<close> is a sequence of Unicode code points, so it is modelled as a list of
  natural numbers; \<open>lit\<close> turns an ASCII literal of the source into that form.
\<close>

type_synonym pystr = "nat list"

definition lit :: "string \<Rightarrow> pystr" where
  "lit s = map of_char s"

text \<open>
  The documents handled by the importer are whatever \<open>response.json()\<close> returns: any JSON
  value.  A \<open>dict\<close> is an association list in insertion order (keys distinct, the first
  binding of a key is the one looked up).  A Python \<open>float\<close> is represented by its
  \<open>repr\<close>, which determines it; the only facts the importer needs of a float are that
  text and whether it is zero.
\<close>

datatype json =
    JNull
  | JBool bool
  | JInt int
  | JFloat pystr
  | JStr pystr
  | JArr "json list"
  | JObj "(pystr \<times> json) list"

text \<open>
  The exceptions are those derived from \<open>Exception\<close>, which \<open>except Exception\<close>
  catches: the three the interpreter raises on the operations below, and whatever the
  HTTP library raises (a failed connection, an invalid URL, a body that is not JSON).
\<close>

datatype exn =
    KeyError pystr
  | TypeError
  | AttributeError
  | RequestException pystr

text \<open>Sequencing of computations that may raise: the first exception ends the computation.\<close>

definition then_do :: "exn + 'a \<Rightarrow> ('a \<Rightarrow> exn + 'b) \<Rightarrow> exn + 'b" where
  "then_do m f = (case m of Inl e \<Rightarrow> Inl e | Inr x \<Rightarrow> f x)"

subsection \<open>Built-in operations\<close>

text \<open>\<open>str.isspace\<close> on one code point (the whitespace table of CPython).\<close>

definition py_isspace :: "nat \<Rightarrow> bool" where
  "py_isspace c \<longleftrightarrow>
     (9 \<le> c \<and> c \<le> 13) \<or> (28 \<le> c \<and> c \<le> 32) \<or> c = 133 \<or> c = 160 \<or> c = 5760 \<or>
     (8192 \<le> c \<and> c \<le> 8202) \<or> c = 8232 \<or> c = 8233 \<or> c = 8239 \<or> c = 8287 \<or> c = 12288"

text \<open>\<open>s.strip()\<close>\<close>

definition py_strip :: "pystr \<Rightarrow> pystr" where
  "py_strip s = rev (dropWhile py_isspace (rev (dropWhile py_isspace s)))"

text \<open>
  \<open>s.split(sep)\<close> for a non-empty separator: the leftmost occurrences of \<open>sep\<close>, not
  overlapping, cut \<open>s\<close>; the result always has at least one segment.
\<close>

fun py_split :: "pystr \<Rightarrow> pystr \<Rightarrow> pystr list" where
  "py_split sep [] = [[]]"
| "py_split sep (c # cs) =
     (if prefix sep (c # cs) then [] # py_split sep (drop (length sep - 1) cs)
      else (case py_split sep cs of
              [] \<Rightarrow> [[c]]
            | seg # segs \<Rightarrow> (c # seg) # segs))"

text \<open>\<open>s.replace(old, new)\<close> for a non-empty \<open>old\<close>.\<close>

fun py_replace :: "pystr \<Rightarrow> pystr \<Rightarrow> pystr \<Rightarrow> pystr" where
  "py_replace old new [] = []"
| "py_replace old new (c # cs) =
     (if prefix old (c # cs) then new @ py_replace old new (drop (length old - 1) cs)
      else c # py_replace old new cs)"

text \<open>Truth value of an object, as tested by \<open>if x\<close> and \<open>x and y\<close>.\<close>

fun truthy :: "json \<Rightarrow> bool" where
  "truthy JNull = False"
| "truthy (JBool b) = b"
| "truthy (JInt n) = (n \<noteq> 0)"
| "truthy (JFloat r) = (r \<noteq> lit ''0.0'' \<and> r \<noteq> lit ''-0.0'')"
| "truthy (JStr s) = (s \<noteq> [])"
| "truthy (JArr xs) = (xs \<noteq> [])"
| "truthy (JObj kvs) = (kvs \<noteq> [])"

text \<open>\<open>x != 0\<close>: only numbers (and \<open>False\<close>, which is the integer 0) can equal 0.\<close>

fun ne_zero :: "json \<Rightarrow> bool" where
  "ne_zero (JBool b) = b"
| "ne_zero (JInt n) = (n \<noteq> 0)"
| "ne_zero (JFloat r) = (r \<noteq> lit ''0.0'' \<and> r \<noteq> lit ''-0.0'')"
| "ne_zero _ = True"

text \<open>\<open>d.get(k, default)\<close>: only a dict has the method.\<close>

fun py_get :: "json \<Rightarrow> pystr \<Rightarrow> json \<Rightarrow> exn + json" where
  "py_get (JObj kvs) k d = Inr (case map_of kvs k of None \<Rightarrow> d | Some v \<Rightarrow> v)"
| "py_get _ k d = Inl AttributeError"

text \<open>
  \<open>x[k]\<close> with a string \<open>k\<close>: a dict without the key raises KeyError, a list or a
  string wants an integer index, and nothing else is subscriptable.
\<close>

fun subscript :: "json \<Rightarrow> pystr \<Rightarrow> exn + json" where
  "subscript (JObj kvs) k = (case map_of kvs k of None \<Rightarrow> Inl (KeyError k) | Some v \<Rightarrow> Inr v)"
| "subscript _ k = Inl TypeError"

text \<open>
  \<open>for x in v\<close>: a list gives its elements, a string its characters, a dict its keys;
  nothing else is iterable.
\<close>

fun py_iter :: "json \<Rightarrow> exn + json list" where
  "py_iter (JArr xs) = Inr xs"
| "py_iter (JStr s) = Inr (map (\<lambda>c. JStr [c]) s)"
| "py_iter (JObj kvs) = Inr (map (\<lambda>kv. JStr (fst kv)) kvs)"
| "py_iter _ = Inl TypeError"

text \<open>The methods \<open>split\<close>, \<open>strip\<close> and \<open>replace\<close> exist on strings only.\<close>

fun split_method :: "json \<Rightarrow> pystr \<Rightarrow> exn + pystr list" where
  "split_method (JStr s) sep = Inr (py_split sep s)"
| "split_method _ sep = Inl AttributeError"

fun strip_method :: "json \<Rightarrow> exn + pystr" where
  "strip_method (JStr s) = Inr (py_strip s)"
| "strip_method _ = Inl AttributeError"

fun replace_method :: "json \<Rightarrow> pystr \<Rightarrow> pystr \<Rightarrow> exn + pystr" where
  "replace_method (JStr s) old new = Inr (py_replace old new s)"
| "replace_method _ old new = Inl AttributeError"

text \<open>\<open>str(n)\<close> of an integer: its decimal digits, with a minus sign when negative.\<close>

fun str_nat :: "nat \<Rightarrow> pystr" where
  "str_nat n = (if n < 10 then [48 + n] else str_nat (n div 10) @ [48 + n mod 10])"

declare str_nat.simps [simp del]

definition str_int :: "int \<Rightarrow> pystr" where
  "str_int i = (if i < 0 then 45 # str_nat (nat (- i)) else str_nat (nat i))"

text \<open>
  A piece of formatted text.  \<open>str(x)\<close> and \<open>f"{x}"\<close> of a number, a string, a boolean
  or \<open>None\<close> are known texts.  The \<open>repr\<close> of a list or dict and the message of an
  exception depend on the interpreter's tables and version, so they are kept as what they
  are the text of.  An f-string is the list of its pieces, in order.
\<close>

datatype piece =
    Text pystr
  | Repr json
  | Msg exn

type_synonym pytext = "piece list"

fun py_str :: "json \<Rightarrow> piece" where
  "py_str JNull = Text (lit ''None'')"
| "py_str (JBool b) = Text (if b then lit ''True'' else lit ''False'')"
| "py_str (JInt n) = Text (str_int n)"
| "py_str (JFloat r) = Text r"
| "py_str (JStr s) = Text s"
| "py_str (JArr xs) = Repr (JArr xs)"
| "py_str (JObj kvs) = Repr (JObj kvs)"

section \<open>The transformation \<open>_transform_recipe\<close>\<close>

text \<open>One entry of the local list \<open>ingredients\<close>: a dict with these four keys.\<close>

record ingredient =
  food :: json
  amount :: piece
  unit :: json
  usage_note :: json

text \<open>
  The dict display appended for one \<open>ing\<close>; its values are evaluated in the order written,
  the condition of each conditional expression first.
\<close>

definition ingredient_entry :: "json \<Rightarrow> exn + ingredient" where
  "ingredient_entry ing =
     then_do (subscript ing (lit ''name'')) (\<lambda>name.
     then_do (subscript ing (lit ''amount'')) (\<lambda>a0.
     then_do (if ne_zero a0
              then then_do (subscript ing (lit ''amount'')) (\<lambda>a. Inr (py_str a))
              else Inr (Text [])) (\<lambda>amount_v.
     then_do (subscript ing (lit ''unit'')) (\<lambda>u0.
     then_do (if truthy u0
              then then_do (subscript ing (lit ''unit'')) (\<lambda>u. Inr (JObj [(lit ''name'', u)]))
              else Inr JNull) (\<lambda>unit_v.
     then_do (py_get ing (lit ''usageInfo'') (JStr [])) (\<lambda>note_v.
     Inr \<lparr>food = JObj [(lit ''name'', name)], amount = amount_v,
          unit = unit_v, usage_note = note_v\<rparr>))))))"

text \<open>The inner loop \<open>for ing in group['ingredients']\<close>, appending to the list so far.\<close>

fun ing_loop :: "json list \<Rightarrow> ingredient list \<Rightarrow> exn + ingredient list" where
  "ing_loop [] ingredients = Inr ingredients"
| "ing_loop (ing # rest) ingredients =
     then_do (ingredient_entry ing) (\<lambda>d. ing_loop rest (ingredients @ [d]))"

text \<open>The outer loop \<open>for group in recipe_data['ingredientGroups']\<close>.\<close>

fun group_loop :: "json list \<Rightarrow> ingredient list \<Rightarrow> exn + ingredient list" where
  "group_loop [] ingredients = Inr ingredients"
| "group_loop (grp # rest) ingredients =
     then_do (subscript grp (lit ''ingredients'')) (\<lambda>v.
     then_do (py_iter v) (\<lambda>ings.
     then_do (ing_loop ings ingredients) (\<lambda>ingredients'.
     group_loop rest ingredients')))"

text \<open>Lines 27 to 36: the list \<open>ingredients\<close> when the loops are done.\<close>

definition collect_ingredients :: "json \<Rightarrow> exn + ingredient list" where
  "collect_ingredients recipe_data =
     then_do (py_get recipe_data (lit ''ingredientGroups'') JNull) (\<lambda>g.
     if truthy g
     then then_do (subscript recipe_data (lit ''ingredientGroups'')) (\<lambda>gs.
          then_do (py_iter gs) (\<lambda>groups. group_loop groups []))
     else Inr [])"

text \<open>The delimiter \<open>'\r\n\r\n'\<close>.\<close>

definition crlf2 :: pystr where
  "crlf2 = [13, 10, 13, 10]"

text \<open>Line 40: one step per segment whose \<open>strip()\<close> is not empty.\<close>

definition steps_of :: "pystr list \<Rightarrow> json list" where
  "steps_of instructions =
     map (\<lambda>step. JObj [(lit ''instruction'', JStr (py_strip step)), (lit ''ingredients'', JArr [])])
       (filter (\<lambda>step. py_strip step \<noteq> []) instructions)"

text \<open>
  Line 43: the comprehension over the tags.  \<open>tag and tag.strip()\<close> calls \<open>strip\<close> only
  on a tag that is truthy, and a truthy tag without that method raises.
\<close>

fun keywords_of :: "json list \<Rightarrow> exn + json list" where
  "keywords_of [] = Inr []"
| "keywords_of (tag # rest) =
     then_do (if truthy tag
              then then_do (strip_method tag) (\<lambda>t. Inr (t \<noteq> []))
              else Inr False) (\<lambda>keep.
     then_do (keywords_of rest) (\<lambda>ks.
     Inr (if keep then JObj [(lit ''name'', tag)] # ks else ks)))"

definition transform_recipe :: "json \<Rightarrow> exn + json" where
  "transform_recipe recipe_data =
     then_do (collect_ingredients recipe_data) (\<lambda>ingredients.
     then_do (py_get recipe_data (lit ''instructions'') (JStr [])) (\<lambda>iv.
     then_do (split_method iv crlf2) (\<lambda>instructions.
     let steps = steps_of instructions in
     then_do (py_get recipe_data (lit ''tags'') (JArr [])) (\<lambda>tv.
     then_do (py_iter tv) (\<lambda>tags.
     then_do (keywords_of tags) (\<lambda>ks.
     let keywords = ks @ [JObj [(lit ''name'', JStr (lit ''pyimport''))]] in
     then_do (subscript recipe_data (lit ''title'')) (\<lambda>title.
     then_do (py_get recipe_data (lit ''additionalDescription'') (JStr [])) (\<lambda>description.
     then_do (py_get recipe_data (lit ''preparationTime'') (JInt 0)) (\<lambda>working_time.
     then_do (py_get recipe_data (lit ''siteUrl'') (JStr [])) (\<lambda>source_url.
     then_do (py_get recipe_data (lit ''servings'') (JInt 0)) (\<lambda>servings.
     Inr (JObj [(lit ''name'', title),
                (lit ''description'', description),
                (lit ''keywords'', JArr keywords),
                (lit ''steps'', JArr steps),
                (lit ''working_time'', working_time),
                (lit ''source_url'', source_url),
                (lit ''servings'', servings),
                (lit ''private'', JBool False)]))))))))))))"

section \<open>Effects: requests, printed lines, pauses\<close>

text \<open>
  What the importer does to the outside is recorded as a trace of events, oldest first.
  A request event is one call of the HTTP library (\<open>requests.get\<close>, \<open>session.post\<close>,
  \<open>session.put\<close>) with its arguments.  The call returns a response or raises, be it
  before anything is sent (an invalid URL) or after; the outcome may depend on everything
  that has happened so far, so the world is a function of the trace that ends with the
  request.  \<open>response.json()\<close> is the field \<open>json_result\<close>: the parsed body, or the
  exception that parsing raises.
\<close>

type_synonym headers = "(pystr \<times> pytext) list"

datatype part_data = Bytes "nat list" | Chars pystr

text \<open>One entry of \<open>files\<close>: field name, then the tuple (filename, data, content type).\<close>

type_synonym file_part = "pystr \<times> pystr option \<times> part_data \<times> pystr option"

datatype request =
    Post pytext headers json
  | Get pytext
  | Put pytext headers "file_part list"

datatype event =
    Request request
  | Print pytext
  | Sleep nat

type_synonym trace = "event list"

record response =
  status_code :: int
  body_text :: pystr
  json_result :: "exn + json"
  content :: "nat list"

type_synonym world = "trace \<Rightarrow> exn + response"

text \<open>An action extends the trace and returns a value or raises.\<close>

type_synonym 'a action = "trace \<Rightarrow> (exn + 'a) \<times> trace"

definition pure_of :: "exn + 'a \<Rightarrow> 'a action" where
  "pure_of r tr = (r, tr)"

definition and_then :: "'a action \<Rightarrow> ('a \<Rightarrow> 'b action) \<Rightarrow> 'b action" where
  "and_then m f tr = (case m tr of (Inl e, tr') \<Rightarrow> (Inl e, tr') | (Inr x, tr') \<Rightarrow> f x tr')"

text \<open>\<open>try: m  except Exception as e: h e\<close>\<close>

definition try_except :: "'a action \<Rightarrow> (exn \<Rightarrow> 'a action) \<Rightarrow> 'a action" where
  "try_except m h tr = (case m tr of (Inl e, tr') \<Rightarrow> h e tr' | (Inr x, tr') \<Rightarrow> (Inr x, tr'))"

definition http :: "world \<Rightarrow> request \<Rightarrow> response action" where
  "http w req tr = (w (tr @ [Request req]), tr @ [Request req])"

text \<open>\<open>print(f"...")\<close>: the f-string is evaluated, which may raise, then the line is written.\<close>

definition print :: "exn + pytext \<Rightarrow> unit action" where
  "print line = and_then (pure_of line) (\<lambda>l tr. (Inr (), tr @ [Print l]))"

definition sleep :: "nat \<Rightarrow> unit action" where
  "sleep n tr = (Inr (), tr @ [Sleep n])"

section \<open>The importer\<close>

record importer =
  base_url :: pystr
  auth_token :: pystr
  headers :: headers

text \<open>The replacement field \<open>{recipe_json['title']}\<close> of the messages.\<close>

definition title_field :: "json \<Rightarrow> exn + piece" where
  "title_field recipe_json = then_do (subscript recipe_json (lit ''title'')) (\<lambda>t. Inr (py_str t))"

text \<open>Lines 79 to 100: the body of the inner \<open>try\<close>.\<close>

definition image_try :: "world \<Rightarrow> importer \<Rightarrow> json \<Rightarrow> json \<Rightarrow> unit action" where
  "image_try w self recipe_json recipe_id =
     and_then (pure_of (then_do (subscript recipe_json (lit ''previewImageUrlTemplate'')) (\<lambda>t.
                 replace_method t (lit ''<format>'') (lit ''crop-642x428'')))) (\<lambda>image_url.
     and_then (http w (Get [Text image_url])) (\<lambda>image_response.
     if status_code image_response = 200
     then
       (let files = [(lit ''image'', Some (lit ''image.jpg''), Bytes (content image_response),
                        Some (lit ''image/jpeg'')),
                     (lit ''image_url'', None, Chars image_url, None)]
        in and_then (http w (Put [Text (base_url self), Text (lit ''/api/recipe/''),
                                  py_str recipe_id, Text (lit ''/image/'')]
                               [(lit ''Authorization'', [Text (lit ''Token ''), Text (auth_token self)])]
                               files)) (\<lambda>image_upload_response.
           if status_code image_upload_response \<noteq> 200
           then print (then_do (title_field recipe_json) (\<lambda>t.
                  Inr [Text (lit ''Error adding image for ''), t]))
           else pure_of (Inr ())))
     else print (then_do (title_field recipe_json) (\<lambda>t.
            Inr [Text (lit ''Error downloading image for ''), t]))))"

text \<open>Lines 78 to 103: the inner \<open>try\<close> with its handler.\<close>

definition add_image :: "world \<Rightarrow> importer \<Rightarrow> json \<Rightarrow> json \<Rightarrow> unit action" where
  "add_image w self recipe_json recipe_id =
     try_except (image_try w self recipe_json recipe_id) (\<lambda>e.
       print (then_do (title_field recipe_json) (\<lambda>t.
         Inr [Text (lit ''Error during image upload for ''), t, Text (lit '': ''), Msg e])))"

text \<open>
  Lines 60 to 106: the body of the outer \<open>try\<close>.  Code point 39 is the apostrophe of the
  last message.
\<close>

definition import_try :: "world \<Rightarrow> importer \<Rightarrow> json \<Rightarrow> unit action" where
  "import_try w self recipe_json =
     and_then (pure_of (transform_recipe recipe_json)) (\<lambda>tandoor_recipe.
     and_then (http w (Post [Text (base_url self), Text (lit ''/api/recipe/'')]
                         (headers self) tandoor_recipe)) (\<lambda>response.
     if status_code response \<noteq> 201
     then print (then_do (title_field recipe_json) (\<lambda>t.
            Inr [Text (lit ''Error creating recipe ''), t, Text (lit '': ''), Text (body_text response)]))
     else
       and_then (pure_of (then_do (json_result response) (\<lambda>j. subscript j (lit ''id'')))) (\<lambda>recipe_id.
       and_then (pure_of (py_get recipe_json (lit ''previewImageUrlTemplate'') JNull)) (\<lambda>tmpl.
       and_then (if truthy tmpl then add_image w self recipe_json recipe_id
                 else pure_of (Inr ())) (\<lambda>_.
       and_then (print (then_do (title_field recipe_json) (\<lambda>t.
                   Inr [Text (lit ''Recipe '' @ [39]), t,
                        Text (39 # lit '' successfully imported'')]))) (\<lambda>_.
       sleep 1))))))"

text \<open>
  \<open>import_recipe\<close>: the handler of the outer \<open>try\<close> formats
  \<open>recipe_json.get('title', 'unknown')\<close>, which itself needs a dict.
\<close>

definition import_recipe :: "world \<Rightarrow> importer \<Rightarrow> json \<Rightarrow> unit action" where
  "import_recipe w self recipe_json =
     try_except (import_try w self recipe_json) (\<lambda>e.
       print (then_do (py_get recipe_json (lit ''title'') (JStr (lit ''unknown''))) (\<lambda>t.
         Inr [Text (lit ''Error importing ''), py_str t, Text (lit '': ''), Msg e])))"

section \<open>The batch loop of \<open>main\<close>\<close>

text \<open>Lines 125 to 135: one iteration, for one line of the URL file.\<close>

definition process_url :: "world \<Rightarrow> importer \<Rightarrow> pystr \<Rightarrow> unit action" where
  "process_url w importer line =
     (let url = py_strip line in
      try_except
        (and_then (http w (Get [Text url])) (\<lambda>response.
         and_then (pure_of (json_result response)) (\<lambda>recipe_data.
         import_recipe w importer recipe_data)))
        (\<lambda>e. print (Inr [Text (lit ''Error processing URL ''), Text url, Text (lit '': ''), Msg e])))"

text \<open>Lines 124 to 135: the loop over \<open>urls\<close>; an exception leaving an iteration ends it.\<close>

fun main_loop :: "world \<Rightarrow> importer \<Rightarrow> pystr list \<Rightarrow> unit action" where
  "main_loop w importer [] tr = (Inr (), tr)"
| "main_loop w importer (url # urls) tr =
     and_then (process_url w importer url) (\<lambda>_. main_loop w importer urls) tr"

section \<open>Notions used to state the properties\<close>

text \<open>\<open>sep.join(segs)\<close>, the inverse of \<open>split\<close>.\<close>

fun py_join :: "pystr \<Rightarrow> pystr list \<Rightarrow> pystr" where
  "py_join sep [] = []"
| "py_join sep [x] = x"
| "py_join sep (x # y # ys) = x @ sep @ py_join sep (y # ys)"

text \<open>A document without one of its fields.\<close>

definition del_key :: "pystr \<Rightarrow> json \<Rightarrow> json" where
  "del_key k rd = (case rd of JObj kvs \<Rightarrow> JObj (filter (\<lambda>kv. fst kv \<noteq> k) kvs) | v \<Rightarrow> v)"

text \<open>A tag that is a string and not empty once stripped.\<close>

definition kept_tag :: "json \<Rightarrow> bool" where
  "kept_tag t = (case t of JStr s \<Rightarrow> py_strip s \<noteq> [] | _ \<Rightarrow> False)"

text \<open>The ingredients of a group, and all the ingredients of a recipe, in document order.\<close>

definition group_ingredients :: "json \<Rightarrow> json list" where
  "group_ingredients grp =
     (case then_do (subscript grp (lit ''ingredients'')) py_iter of Inr ings \<Rightarrow> ings | Inl e \<Rightarrow> [])"

definition source_ingredients :: "json \<Rightarrow> json list" where
  "source_ingredients recipe_data =
     (case then_do (subscript recipe_data (lit ''ingredientGroups'')) py_iter of
        Inr groups \<Rightarrow> concat (map group_ingredients groups)
      | Inl e \<Rightarrow> [])"

text \<open>Reading a decimal numeral back: the number a string of digits, possibly signed, denotes.\<close>

definition nat_of_digits :: "pystr \<Rightarrow> nat" where
  "nat_of_digits ds = foldl (\<lambda>a d. 10 * a + (d - 48)) 0 ds"

definition int_of_decimal :: "pystr \<Rightarrow> int" where
  "int_of_decimal s =
     (case s of [] \<Rightarrow> 0
      | c # ds \<Rightarrow> if c = 45 then - int (nat_of_digits ds) else int (nat_of_digits s))"

text \<open>
  The shape of a source recipe as its data model has it: groups that hold a list of
  ingredients with name, amount and unit, instructions that are a string, tags that are
  strings; each of the three fields may be absent.
\<close>

fun ingredient_ok :: "json \<Rightarrow> bool" where
  "ingredient_ok (JObj kvs) \<longleftrightarrow>
     map_of kvs (lit ''name'') \<noteq> None \<and> map_of kvs (lit ''amount'') \<noteq> None \<and>
     map_of kvs (lit ''unit'') \<noteq> None"
| "ingredient_ok _ \<longleftrightarrow> False"

fun group_ok :: "json \<Rightarrow> bool" where
  "group_ok (JObj kvs) \<longleftrightarrow>
     (case map_of kvs (lit ''ingredients'') of
        Some (JArr ings) \<Rightarrow> list_all ingredient_ok ings
      | _ \<Rightarrow> False)"
| "group_ok _ \<longleftrightarrow> False"

fun is_str :: "json \<Rightarrow> bool" where
  "is_str (JStr s) \<longleftrightarrow> True"
| "is_str _ \<longleftrightarrow> False"

definition well_typed :: "(pystr \<times> json) list \<Rightarrow> bool" where
  "well_typed kvs \<longleftrightarrow>
     (case map_of kvs (lit ''ingredientGroups'') of
        None \<Rightarrow> True | Some (JArr groups) \<Rightarrow> list_all group_ok groups | Some _ \<Rightarrow> False) \<and>
     (case map_of kvs (lit ''instructions'') of
        None \<Rightarrow> True | Some (JStr s) \<Rightarrow> True | Some _ \<Rightarrow> False) \<and>
     (case map_of kvs (lit ''tags'') of
        None \<Rightarrow> True | Some (JArr tags) \<Rightarrow> list_all is_str tags | Some _ \<Rightarrow> False)"


text \<open>An action that only ever adds events at the end of the trace.\<close>

definition extends :: "'a action \<Rightarrow> bool" where
  "extends m \<longleftrightarrow> (\<forall>tr. \<exists>new. snd (m tr) = tr @ new)"

text \<open>Lines 8 to 14: the importer built by \<open>__init__\<close> once the token has been obtained.\<close>

definition new_importer :: "pystr \<Rightarrow> pystr \<Rightarrow> importer" where
  "new_importer url token =
     \<lparr>base_url = url, auth_token = token,
      headers = [(lit ''Authorization'', [Text (lit ''Bearer ''), Text token]),
                 (lit ''Content-Type'', [Text (lit ''application/json'')])]\<rparr>"

section \<open>Sample data\<close>

definition soup_fields :: "(pystr \<times> json) list" where
  "soup_fields =
     [(lit ''title'', JStr (lit ''Soup'')),
      (lit ''ingredientGroups'',
         JArr [JObj [(lit ''ingredients'',
           JArr [JObj [(lit ''name'', JStr (lit ''salt'')), (lit ''amount'', JInt 0),
                       (lit ''unit'', JStr [])],
                 JObj [(lit ''name'', JStr (lit ''water'')), (lit ''amount'', JInt 2),
                       (lit ''unit'', JStr (lit ''l''))]])]]),
      (lit ''instructions'',
         JStr (lit ''Boil water.'' @ crlf2 @ lit '' '' @ crlf2 @ lit ''Add salt.'')),
      (lit ''tags'', JArr [JStr (lit '' quick ''), JStr [], JStr (lit '' '')]),
      (lit ''preparationTime'', JInt 10),
      (lit ''servings'', JInt 4),
      (lit ''previewImageUrlTemplate'', JStr (lit ''http://img/<format>/soup.jpg''))]"

definition soup :: json where
  "soup = JObj soup_fields"

definition soup_payload :: json where
  "soup_payload =
     JObj [(lit ''name'', JStr (lit ''Soup'')),
           (lit ''description'', JStr []),
           (lit ''keywords'', JArr [JObj [(lit ''name'', JStr (lit '' quick ''))],
                                    JObj [(lit ''name'', JStr (lit ''pyimport''))]]),
           (lit ''steps'', JArr [JObj [(lit ''instruction'', JStr (lit ''Boil water.'')),
                                       (lit ''ingredients'', JArr [])],
                                 JObj [(lit ''instruction'', JStr (lit ''Add salt.'')),
                                       (lit ''ingredients'', JArr [])]]),
           (lit ''working_time'', JInt 10),
           (lit ''source_url'', JStr []),
           (lit ''servings'', JInt 4),
           (lit ''private'', JBool False)]"

definition soup_ingredients :: "ingredient list" where
  "soup_ingredients =
     [\<lparr>food = JObj [(lit ''name'', JStr (lit ''salt''))], amount = Text [], unit = JNull,
       usage_note = JStr []\<rparr>,
      \<lparr>food = JObj [(lit ''name'', JStr (lit ''water''))], amount = Text (lit ''2''),
       unit = JObj [(lit ''name'', JStr (lit ''l''))], usage_note = JStr []\<rparr>]"

definition tandoor :: importer where
  "tandoor = new_importer (lit ''https://tandoor.your.domain'') (lit ''t0ken'')"

definition soup_post :: request where
  "soup_post = Post [Text (lit ''https://tandoor.your.domain''), Text (lit ''/api/recipe/'')]
                 [(lit ''Authorization'', [Text (lit ''Bearer ''), Text (lit ''t0ken'')]),
                  (lit ''Content-Type'', [Text (lit ''application/json'')])]
                 soup_payload"


definition created :: response where
  "created = \<lparr>status_code = 201, body_text = lit ''Created'',
               json_result = Inr (JObj [(lit ''id'', JInt 42)]), content = []\<rparr>"


text \<open>Three worlds: no connection at all; every request refused; recipes created, images missing.\<close>

definition offline :: world where
  "offline tr = Inl (RequestException (lit ''no connection''))"




definition soup_document :: response where
  "soup_document = \<lparr>status_code = 200, body_text = lit ''soup'',
                     json_result = Inr soup, content = [255, 216, 255]\<rparr>"

definition accepted :: response where
  "accepted = \<lparr>status_code = 200, body_text = lit ''OK'',
                json_result = Inl (RequestException (lit ''JSONDecodeError'')), content = []\<rparr>"

text \<open>A fourth world: every GET delivers the sample document, recipes and images are accepted.\<close>

fun serve :: "event \<Rightarrow> exn + response" where
  "serve (Request (Post url hdrs body)) = Inr created"
| "serve (Request (Get url)) = Inr soup_document"
| "serve (Request (Put url hdrs files)) = Inr accepted"
| "serve _ = Inl (RequestException (lit ''no connection''))"

definition serving :: world where
  "serving tr = (case rev tr of [] \<Rightarrow> Inl (RequestException (lit ''no connection'')) | ev # _ \<Rightarrow> serve ev)"

section \<open>Basic facts\<close>

lemma lit_eq_iff [simp]: "lit a = lit b \<longleftrightarrow> a = b"
  unfolding lit_def by (metis inj_of_char inj_map_eq_map)

lemma lit_Nil_iff [simp]: "lit a = [] \<longleftrightarrow> a = []" "[] = lit a \<longleftrightarrow> a = []"
  by (auto simp: lit_def)

lemma py_strip_Nil [simp]: "py_strip [] = []"
  by (simp add: py_strip_def)

lemma then_do_Inr_iff: "then_do m f = Inr y \<longleftrightarrow> (\<exists>x. m = Inr x \<and> f x = Inr y)"
  by (cases m) (simp_all add: then_do_def)

lemma then_do_Inr [simp]: "then_do (Inr x) f = f x"
  by (simp add: then_do_def)

lemma then_do_Inl [simp]: "then_do (Inl e) f = Inl e"
  by (simp add: then_do_def)

lemma split_method_Inr_iff:
  "split_method v sep = Inr segs \<longleftrightarrow> (\<exists>s. v = JStr s \<and> segs = py_split sep s)"
  by (cases v) auto

lemma strip_method_Inr_iff: "strip_method v = Inr t \<longleftrightarrow> (\<exists>s. v = JStr s \<and> t = py_strip s)"
  by (cases v) auto

lemma py_get_Inr_iff:
  "py_get rd k d = Inr v \<longleftrightarrow>
     (\<exists>kvs. rd = JObj kvs \<and> v = (case map_of kvs k of None \<Rightarrow> d | Some x \<Rightarrow> x))"
  by (cases rd) auto

lemma subscript_Inr_iff:
  "subscript v k = Inr x \<longleftrightarrow> (\<exists>kvs. v = JObj kvs \<and> map_of kvs k = Some x)"
  by (cases v) (auto split: option.splits)

lemmas action_defs = and_then_def pure_of_def try_except_def http_def print_def sleep_def

subsection \<open>What a successful transformation consists of\<close>

lemma transform_recipe_Inr_iff:
  "transform_recipe rd = Inr p \<longleftrightarrow>
     (\<exists>ings s tv tags ks title description working_time source_url servings.
        collect_ingredients rd = Inr ings \<and>
        py_get rd (lit ''instructions'') (JStr []) = Inr (JStr s) \<and>
        py_get rd (lit ''tags'') (JArr []) = Inr tv \<and>
        py_iter tv = Inr tags \<and>
        keywords_of tags = Inr ks \<and>
        subscript rd (lit ''title'') = Inr title \<and>
        py_get rd (lit ''additionalDescription'') (JStr []) = Inr description \<and>
        py_get rd (lit ''preparationTime'') (JInt 0) = Inr working_time \<and>
        py_get rd (lit ''siteUrl'') (JStr []) = Inr source_url \<and>
        py_get rd (lit ''servings'') (JInt 0) = Inr servings \<and>
        p = JObj [(lit ''name'', title),
                (lit ''description'', description),
                (lit ''keywords'', JArr (ks @ [JObj [(lit ''name'', JStr (lit ''pyimport''))]])),
                (lit ''steps'', JArr (steps_of (py_split crlf2 s))),
                (lit ''working_time'', working_time),
                (lit ''source_url'', source_url),
                (lit ''servings'', servings),
                (lit ''private'', JBool False)])"
  unfolding transform_recipe_def Let_def then_do_Inr_iff split_method_Inr_iff
  by auto

lemma transform_recipe_title:
  "transform_recipe rj = Inr payload \<Longrightarrow>
     \<exists>kvs t. rj = JObj kvs \<and> map_of kvs (lit ''title'') = Some t"
  unfolding transform_recipe_Inr_iff by (auto simp: subscript_Inr_iff)

subsection \<open>Removing a field\<close>

lemma map_of_filter_key:
  "map_of (filter (\<lambda>kv. fst kv \<noteq> k) kvs) k' = (if k' = k then None else map_of kvs k')"
  by (induction kvs) auto

lemma py_get_del_key: "k' \<noteq> k \<Longrightarrow> py_get (del_key k rd) k' d = py_get rd k' d"
  by (cases rd) (simp_all add: del_key_def map_of_filter_key)

lemma subscript_del_key: "k' \<noteq> k \<Longrightarrow> subscript (del_key k rd) k' = subscript rd k'"
  by (cases rd) (simp_all add: del_key_def map_of_filter_key)

lemma collect_ingredients_del_key:
  "collect_ingredients (del_key (lit ''ingredientGroups'') (JObj kvs)) = Inr []"
  by (simp add: collect_ingredients_def del_key_def map_of_filter_key)

lemma steps_of_ingredients:
  "s \<in> set (steps_of segs) \<Longrightarrow> subscript s (lit ''ingredients'') = Inr (JArr [])"
  by (auto simp: steps_of_def)

subsection \<open>Keywords\<close>

lemma keywords_of_Inr:
  "keywords_of tags = Inr ks \<Longrightarrow> ks = map (\<lambda>t. JObj [(lit ''name'', t)]) (filter kept_tag tags)"
proof (induction tags arbitrary: ks)
  case Nil
  then show ?case by simp
next
  case (Cons tag rest)
  then show ?case
    by (cases tag) (auto simp: then_do_Inr_iff kept_tag_def split: if_splits)
qed

lemma py_strip_pyimport: "py_strip (lit ''pyimport'') = lit ''pyimport''"
  by (simp add: py_strip_def lit_def py_isspace_def)

lemma count_keywords:
  "count_list (map (\<lambda>t. JObj [(lit ''name'', t)]) (filter kept_tag tags))
              (JObj [(lit ''name'', JStr (lit ''pyimport''))])
     = count_list tags (JStr (lit ''pyimport''))"
  by (induction tags) (auto simp: kept_tag_def py_strip_pyimport)

subsection \<open>Splitting and stripping\<close>

lemma py_split_not_Nil [simp]: "py_split sep s \<noteq> []"
  by (induction sep s rule: py_split.induct) (auto split: list.splits)

lemma py_join_Cons: "segs \<noteq> [] \<Longrightarrow> py_join sep (x # segs) = x @ sep @ py_join sep segs"
  by (cases segs) auto

lemma py_join_Cons_Cons: "py_join sep ((c # seg) # segs) = c # py_join sep (seg # segs)"
  by (cases segs) auto

lemma py_join_split:
  assumes "sep \<noteq> []"
  shows "py_join sep (py_split sep s) = s"
  using assms
proof (induction sep s rule: py_split.induct)
  case (1 sep)
  then show ?case by simp
next
  case (2 sep c cs)
  show ?case
  proof (cases "prefix sep (c # cs)")
    case True
    have d: "drop (length sep - 1) cs = drop (length sep) (c # cs)"
      using "2.prems" by (cases sep) auto
    have s: "sep @ drop (length sep) (c # cs) = c # cs"
      using True by (metis append_eq_conv_conj prefix_def)
    have "py_join sep (py_split sep (c # cs)) =
            sep @ py_join sep (py_split sep (drop (length sep - 1) cs))"
      using True by (simp add: py_join_Cons)
    also have "\<dots> = sep @ drop (length sep - 1) cs"
      using "2.IH"(1) [OF True "2.prems"] by simp
    also have "\<dots> = c # cs"
      unfolding d by (rule s)
    finally show ?thesis .
  next
    case False
    obtain seg segs where sp: "py_split sep cs = seg # segs"
      by (cases "py_split sep cs") auto
    with False 2 show ?thesis
      by (simp add: py_join_Cons_Cons)
  qed
qed

lemma hd_split_prefix:
  assumes "sep \<noteq> []" "py_split sep s = seg # segs"
  shows "prefix seg s"
proof -
  have "s = py_join sep (seg # segs)"
    using py_join_split [OF assms(1), of s] assms(2) by simp
  then show ?thesis
    by (cases segs) auto
qed

lemma sublist_Cons_cases: "sublist xs (c # ys) \<Longrightarrow> prefix xs (c # ys) \<or> sublist xs ys"
  by (metis sublist_Cons_right)

lemma py_split_free:
  assumes "sep \<noteq> []"
  shows "seg \<in> set (py_split sep s) \<Longrightarrow> \<not> sublist sep seg"
  using assms
proof (induction sep s arbitrary: seg rule: py_split.induct)
  case (1 sep)
  then show ?case by simp
next
  case (2 sep c cs)
  show ?case
  proof (cases "prefix sep (c # cs)")
    case True
    with 2 show ?thesis by auto
  next
    case False
    obtain sg segs where sp: "py_split sep cs = sg # segs"
      by (cases "py_split sep cs") auto
    from sp have pre: "prefix sg cs"
      using hd_split_prefix "2.prems"(2) by blast
    have first: "\<not> sublist sep (c # sg)"
    proof
      assume "sublist sep (c # sg)"
      then have "prefix sep (c # sg) \<or> sublist sep sg"
        by (rule sublist_Cons_cases)
      moreover have "\<not> sublist sep sg"
        using "2.IH"(2) [OF False] sp "2.prems"(2) by simp
      ultimately have "prefix sep (c # sg)" by blast
      with pre have "prefix sep (c # cs)"
        by (meson Cons_prefix_Cons prefix_order.trans)
      with False show False by simp
    qed
    from "2.prems"(1) False sp have "seg = c # sg \<or> seg \<in> set segs"
      by simp
    then show ?thesis
    proof
      assume "seg = c # sg" with first show ?thesis by simp
    next
      assume "seg \<in> set segs"
      then have "seg \<in> set (py_split sep cs)" using sp by simp
      then show ?thesis using "2.IH"(2) [OF False] "2.prems"(2) by simp
    qed
  qed
qed

lemma py_strip_empty_iff: "py_strip s = [] \<longleftrightarrow> list_all py_isspace s"
proof -
  have a: "dropWhile py_isspace s = [] \<longleftrightarrow> (\<forall>x\<in>set s. py_isspace x)"
    by (simp add: dropWhile_eq_Nil_conv)
  have b: "(\<forall>x\<in>set (dropWhile py_isspace s). py_isspace x) \<longleftrightarrow> dropWhile py_isspace s = []"
  proof (cases "dropWhile py_isspace s")
    case Nil
    show ?thesis unfolding Nil by simp
  next
    case (Cons x xs)
    then have "\<not> py_isspace x"
      by (metis hd_dropWhile list.distinct(1) list.sel(1))
    then show ?thesis unfolding Cons by simp
  qed
  have "py_strip s = [] \<longleftrightarrow> (\<forall>x\<in>set (dropWhile py_isspace s). py_isspace x)"
    by (simp add: py_strip_def dropWhile_eq_Nil_conv)
  with a b show ?thesis
    by (simp only: list_all_iff)
qed

lemma crlf2_not_Nil: "crlf2 \<noteq> []"
  by (simp add: crlf2_def)

subsection \<open>Decimal numerals\<close>

lemma nat_of_digits_str_nat: "nat_of_digits (str_nat n) = n"
proof (induction n rule: str_nat.induct)
  case (1 n)
  show ?case
  proof (cases "n < 10")
    case True
    then show ?thesis by (simp add: str_nat.simps [of n] nat_of_digits_def)
  next
    case False
    with 1 have "nat_of_digits (str_nat (n div 10)) = n div 10" by simp
    with False show ?thesis
      by (simp add: str_nat.simps [of n] nat_of_digits_def)
  qed
qed

lemma str_nat_digits: "c \<in> set (str_nat n) \<Longrightarrow> 48 \<le> c \<and> c \<le> 57"
proof (induction n rule: str_nat.induct)
  case (1 n)
  show ?case
  proof (cases "n < 10")
    case True
    with "1.prems" show ?thesis by (simp add: str_nat.simps [of n])
  next
    case False
    with 1 show ?thesis
      by (auto simp: str_nat.simps [of n])
  qed
qed

lemma str_nat_not_Nil: "str_nat n \<noteq> []"
  by (simp add: str_nat.simps [of n])

lemma int_of_decimal_str_int: "int_of_decimal (str_int i) = i"
proof (cases "i < 0")
  case True
  then show ?thesis
    by (simp add: str_int_def int_of_decimal_def nat_of_digits_str_nat)
next
  case False
  obtain c ds where s: "str_nat (nat i) = c # ds"
    using str_nat_not_Nil by (cases "str_nat (nat i)") auto
  then have "c \<in> set (str_nat (nat i))" by simp
  then have "c \<noteq> 45" using str_nat_digits by fastforce
  with False s show ?thesis
    using nat_of_digits_str_nat [of "nat i"]
    by (simp add: str_int_def int_of_decimal_def)
qed

subsection \<open>The ingredient loops\<close>

lemma ingredient_entry_amount:
  assumes "ingredient_entry ing = Inr d"
  shows "\<exists>a. subscript ing (lit ''amount'') = Inr a \<and>
           amount d = (if ne_zero a then py_str a else Text [])"
  using assms unfolding ingredient_entry_def then_do_Inr_iff
  by (auto split: if_splits simp: then_do_Inr_iff)

lemma ing_loop_Inr:
  "ing_loop ings acc = Inr out \<Longrightarrow>
     \<exists>ds. out = acc @ ds \<and> list_all2 (\<lambda>ing d. ingredient_entry ing = Inr d) ings ds"
proof (induction ings arbitrary: acc)
  case Nil
  then show ?case by simp
next
  case (Cons ing rest)
  then obtain d where d: "ingredient_entry ing = Inr d" and r: "ing_loop rest (acc @ [d]) = Inr out"
    by (auto simp: then_do_Inr_iff)
  from Cons.IH [OF r] obtain ds where "out = (acc @ [d]) @ ds"
    "list_all2 (\<lambda>ing d. ingredient_entry ing = Inr d) rest ds" by blast
  with d show ?case by (intro exI [of _ "d # ds"]) simp
qed

lemma group_loop_Inr:
  "group_loop groups acc = Inr out \<Longrightarrow>
     \<exists>ds. out = acc @ ds \<and>
       list_all2 (\<lambda>ing d. ingredient_entry ing = Inr d) (concat (map group_ingredients groups)) ds"
proof (induction groups arbitrary: acc)
  case Nil
  then show ?case by simp
next
  case (Cons grp rest)
  then obtain v ings acc' where v: "subscript grp (lit ''ingredients'') = Inr v"
    and i: "py_iter v = Inr ings" and l: "ing_loop ings acc = Inr acc'"
    and r: "group_loop rest acc' = Inr out"
    by (auto simp: then_do_Inr_iff)
  from ing_loop_Inr [OF l] obtain ds1 where 1: "acc' = acc @ ds1"
    "list_all2 (\<lambda>ing d. ingredient_entry ing = Inr d) ings ds1" by blast
  from Cons.IH [OF r] obtain ds2 where 2: "out = acc' @ ds2"
    "list_all2 (\<lambda>ing d. ingredient_entry ing = Inr d) (concat (map group_ingredients rest)) ds2"
    by blast
  have "group_ingredients grp = ings"
    using v i by (simp add: group_ingredients_def)
  with 1 2 show ?case
    by (intro exI [of _ "ds1 @ ds2"]) (simp add: list_all2_appendI)
qed

lemma collect_ingredients_Inr:
  assumes "collect_ingredients rd = Inr out"
  shows "list_all2 (\<lambda>ing d. ingredient_entry ing = Inr d) (source_ingredients rd) out"
proof -
  from assms obtain kvs where rd: "rd = JObj kvs"
    by (auto simp: collect_ingredients_def then_do_Inr_iff py_get_Inr_iff)
  show ?thesis
  proof (cases "map_of kvs (lit ''ingredientGroups'')")
    case None
    with assms rd show ?thesis
      by (simp add: collect_ingredients_def source_ingredients_def)
  next
    case (Some g)
    show ?thesis
    proof (cases "truthy g")
      case True
      with assms rd Some obtain groups where g: "py_iter g = Inr groups"
        and l: "group_loop groups [] = Inr out"
        by (auto simp: collect_ingredients_def then_do_Inr_iff)
      from group_loop_Inr [OF l] g rd Some show ?thesis
        by (simp add: source_ingredients_def)
    next
      case False
      then have "py_iter g = Inr [] \<or> (\<exists>e. py_iter g = Inl e)"
        by (cases g) auto
      with False assms rd Some show ?thesis
        by (auto simp: collect_ingredients_def source_ingredients_def)
    qed
  qed
qed

subsection \<open>Recipes of the expected shape\<close>

lemma ingredient_ok_entry: "ingredient_ok ing \<Longrightarrow> \<exists>d. ingredient_entry ing = Inr d"
  by (cases ing) (auto simp: ingredient_entry_def)

lemma ing_loop_ok: "list_all ingredient_ok ings \<Longrightarrow> \<exists>out. ing_loop ings acc = Inr out"
proof (induction ings arbitrary: acc)
  case Nil
  then show ?case by simp
next
  case (Cons ing rest)
  then obtain d where "ingredient_entry ing = Inr d"
    using ingredient_ok_entry by auto
  with Cons show ?case by simp
qed

lemma group_loop_ok: "list_all group_ok groups \<Longrightarrow> \<exists>out. group_loop groups acc = Inr out"
proof (induction groups arbitrary: acc)
  case Nil
  then show ?case by simp
next
  case (Cons grp rest)
  then obtain kvs ings where g: "grp = JObj kvs"
    "map_of kvs (lit ''ingredients'') = Some (JArr ings)" "list_all ingredient_ok ings"
    by (cases grp) (auto split: option.splits json.splits)
  from ing_loop_ok [OF g(3)] obtain acc' where "ing_loop ings acc = Inr acc'" by blast
  with g Cons show ?case by simp
qed

lemma keywords_of_ok: "list_all is_str tags \<Longrightarrow> \<exists>ks. keywords_of tags = Inr ks"
proof (induction tags)
  case Nil
  then show ?case by simp
next
  case (Cons tag rest)
  then obtain ks where "keywords_of rest = Inr ks" by auto
  with Cons.prems show ?case by (cases tag) auto
qed

lemma collect_ingredients_ok:
  assumes "well_typed kvs"
  shows "\<exists>ings. collect_ingredients (JObj kvs) = Inr ings"
proof (cases "map_of kvs (lit ''ingredientGroups'')")
  case None
  then show ?thesis by (simp add: collect_ingredients_def)
next
  case (Some g)
  with assms obtain groups where g: "g = JArr groups" "list_all group_ok groups"
    by (auto simp: well_typed_def split: json.splits)
  from group_loop_ok [OF g(2)] obtain out where "group_loop groups [] = Inr out" by blast
  with Some g show ?thesis by (simp add: collect_ingredients_def)
qed

lemma well_typed_parts:
  assumes "well_typed kvs"
  obtains ings s tags ks where
    "collect_ingredients (JObj kvs) = Inr ings"
    "py_get (JObj kvs) (lit ''instructions'') (JStr []) = Inr (JStr s)"
    "py_get (JObj kvs) (lit ''tags'') (JArr []) = Inr (JArr tags)"
    "keywords_of tags = Inr ks"
proof -
  from collect_ingredients_ok [OF assms] obtain ings
    where 1: "collect_ingredients (JObj kvs) = Inr ings" by blast
  from assms obtain s where 2: "py_get (JObj kvs) (lit ''instructions'') (JStr []) = Inr (JStr s)"
    by (auto simp: well_typed_def split: option.splits json.splits)
  from assms obtain tags where 3: "py_get (JObj kvs) (lit ''tags'') (JArr []) = Inr (JArr tags)"
    "list_all is_str tags"
    by (auto simp: well_typed_def split: option.splits json.splits)
  from keywords_of_ok [OF 3(2)] obtain ks where 4: "keywords_of tags = Inr ks" by blast
  from 1 2 3(1) 4 that show ?thesis by blast
qed

lemma transform_recipe_ok:
  assumes "well_typed kvs" and "map_of kvs (lit ''title'') = Some title"
  shows "\<exists>p. transform_recipe (JObj kvs) = Inr p"
proof -
  from assms(1) obtain ings s tags ks where
    "collect_ingredients (JObj kvs) = Inr ings"
    "py_get (JObj kvs) (lit ''instructions'') (JStr []) = Inr (JStr s)"
    "py_get (JObj kvs) (lit ''tags'') (JArr []) = Inr (JArr tags)"
    "keywords_of tags = Inr ks"
    by (rule well_typed_parts)
  with assms(2) show ?thesis
    unfolding transform_recipe_Inr_iff by simp
qed

lemma transform_recipe_no_title:
  assumes "well_typed kvs" and "map_of kvs (lit ''title'') = None"
  shows "transform_recipe (JObj kvs) = Inl (KeyError (lit ''title''))"
proof -
  from assms(1) obtain ings s tags ks where
    "collect_ingredients (JObj kvs) = Inr ings"
    "py_get (JObj kvs) (lit ''instructions'') (JStr []) = Inr (JStr s)"
    "py_get (JObj kvs) (lit ''tags'') (JArr []) = Inr (JArr tags)"
    "keywords_of tags = Inr ks"
    by (rule well_typed_parts)
  with assms(2) show ?thesis
    by (simp add: transform_recipe_def Let_def)
qed

lemma transform_recipe_needs_title:
  assumes "subscript rd (lit ''title'') = Inl e"
  shows "\<exists>e'. transform_recipe rd = Inl e'"
proof (cases "transform_recipe rd")
  case (Inl a)
  then show ?thesis by blast
next
  case (Inr p)
  with assms show ?thesis
    unfolding transform_recipe_Inr_iff by auto
qed

subsection \<open>Actions only add to the trace\<close>

lemma extends_pure_of [simp]: "extends (pure_of r)"
  by (simp add: extends_def pure_of_def)

lemma extends_http [simp]: "extends (http w req)"
  by (simp add: extends_def http_def)

lemma extends_sleep [simp]: "extends (sleep n)"
  by (simp add: extends_def sleep_def)

lemma extends_print [simp]: "extends (print l)"
  by (cases l) (simp_all add: extends_def print_def and_then_def pure_of_def)

lemma extends_and_then:
  assumes "extends m" and "\<And>x. extends (f x)"
  shows "extends (and_then m f)"
  unfolding extends_def
proof
  fix tr
  from assms(1) obtain n1 where 1: "snd (m tr) = tr @ n1" unfolding extends_def by blast
  show "\<exists>new. snd (and_then m f tr) = tr @ new"
  proof (cases "m tr")
    case (Pair r tr1)
    with 1 have tr1: "tr1 = tr @ n1" by simp
    show ?thesis
    proof (cases r)
      case (Inl e)
      with Pair tr1 show ?thesis by (simp add: and_then_def)
    next
      case (Inr x)
      from assms(2) [of x] obtain n2 where "snd (f x tr1) = tr1 @ n2" unfolding extends_def by blast
      with Pair Inr tr1 show ?thesis by (simp add: and_then_def)
    qed
  qed
qed

lemma extends_try_except:
  assumes "extends m" and "\<And>e. extends (h e)"
  shows "extends (try_except m h)"
  unfolding extends_def
proof
  fix tr
  from assms(1) obtain n1 where 1: "snd (m tr) = tr @ n1" unfolding extends_def by blast
  show "\<exists>new. snd (try_except m h tr) = tr @ new"
  proof (cases "m tr")
    case (Pair r tr1)
    with 1 have tr1: "tr1 = tr @ n1" by simp
    show ?thesis
    proof (cases r)
      case (Inr x)
      with Pair tr1 show ?thesis by (simp add: try_except_def)
    next
      case (Inl e)
      from assms(2) [of e] obtain n2 where "snd (h e tr1) = tr1 @ n2" unfolding extends_def by blast
      with Pair Inl tr1 show ?thesis by (simp add: try_except_def)
    qed
  qed
qed

lemma extends_if: "extends a \<Longrightarrow> extends b \<Longrightarrow> extends (if c then a else b)"
  by simp

lemma extends_add_image: "extends (add_image w self rj rid)"
  unfolding add_image_def image_try_def Let_def
  by (intro extends_try_except extends_and_then extends_if) simp_all

lemma extends_import_recipe: "extends (import_recipe w self rj)"
  unfolding import_recipe_def import_try_def
  by (intro extends_try_except extends_and_then extends_if extends_add_image) simp_all

subsection \<open>The image step and one iteration of the batch\<close>


lemma process_url_cases:
  "process_url w imp line tr =
     (case w (tr @ [Request (Get [Text (py_strip line)])]) of
        Inl e \<Rightarrow>
          (Inr (), tr @ [Request (Get [Text (py_strip line)]),
                         Print [Text (lit ''Error processing URL ''), Text (py_strip line),
                                Text (lit '': ''), Msg e]])
      | Inr response \<Rightarrow>
          (case json_result response of
             Inl e \<Rightarrow>
               (Inr (), tr @ [Request (Get [Text (py_strip line)]),
                              Print [Text (lit ''Error processing URL ''), Text (py_strip line),
                                     Text (lit '': ''), Msg e]])
           | Inr recipe_data \<Rightarrow>
               (case import_recipe w imp recipe_data (tr @ [Request (Get [Text (py_strip line)])]) of
                  (Inr u, tr') \<Rightarrow> (Inr u, tr')
                | (Inl e, tr') \<Rightarrow>
                    (Inr (), tr' @ [Print [Text (lit ''Error processing URL ''), Text (py_strip line),
                                           Text (lit '': ''), Msg e]]))))"
  by (simp add: process_url_def Let_def action_defs split: sum.splits prod.splits)

lemma process_url_returns:
  "\<exists>rest. process_url w imp line tr = (Inr (), tr @ Request (Get [Text (py_strip line)]) # rest)"
proof -
  let ?tr1 = "tr @ [Request (Get [Text (py_strip line)])]"
  have imp: "\<exists>new. snd (import_recipe w imp rd ?tr1) = ?tr1 @ new" for rd
    using extends_import_recipe [of w imp rd] unfolding extends_def by blast
  show ?thesis
  proof (cases "w ?tr1")
    case (Inl e)
    then show ?thesis by (simp add: process_url_cases)
  next
    case (Inr response)
    show ?thesis
    proof (cases "json_result response")
      case (Inl e)
      with Inr show ?thesis by (simp add: process_url_cases)
    next
      case rd: (Inr recipe_data)
      from imp [of recipe_data] obtain new r
        where "import_recipe w imp recipe_data ?tr1 = (r, ?tr1 @ new)"
        by (cases "import_recipe w imp recipe_data ?tr1") auto
      with Inr rd show ?thesis
        by (cases r) (simp_all add: process_url_cases)
    qed
  qed
qed

lemma main_loop_runs:
  "\<exists>chunks. main_loop w imp urls tr = (Inr (), tr @ concat chunks) \<and>
     list_all2 (\<lambda>line chunk. \<exists>rest. chunk = Request (Get [Text (py_strip line)]) # rest) urls chunks"
proof (induction urls arbitrary: tr)
  case Nil
  then show ?case by simp
next
  case (Cons url urls)
  from process_url_returns [of w imp url tr] obtain rest
    where p: "process_url w imp url tr = (Inr (), tr @ Request (Get [Text (py_strip url)]) # rest)"
    by blast
  let ?c = "Request (Get [Text (py_strip url)]) # rest"
  from Cons.IH [of "tr @ ?c"] obtain chunks
    where l: "main_loop w imp urls (tr @ ?c) = (Inr (), (tr @ ?c) @ concat chunks)"
      and a: "list_all2 (\<lambda>line chunk. \<exists>rest. chunk = Request (Get [Text (py_strip line)]) # rest)
                urls chunks"
    by blast
  from p l have "main_loop w imp (url # urls) tr = (Inr (), tr @ concat (?c # chunks))"
    by (simp add: and_then_def)
  moreover from a
  have "list_all2 (\<lambda>line chunk. \<exists>rest. chunk = Request (Get [Text (py_strip line)]) # rest)
          (url # urls) (?c # chunks)" by simp
  ultimately show ?case by blast
qed

subsection \<open>The sample recipe, evaluated\<close>

lemma str_int_2: "str_int 2 = lit ''2''"
  by (simp add: str_int_def str_nat.simps lit_def)

lemma collect_soup: "collect_ingredients soup = Inr soup_ingredients"
  by (simp add: soup_def soup_fields_def soup_ingredients_def collect_ingredients_def
      ingredient_entry_def str_int_2)

lemma split_soup:
  "py_split crlf2 (lit ''Boil water.'' @ crlf2 @ lit '' '' @ crlf2 @ lit ''Add salt.'') =
     [lit ''Boil water.'', lit '' '', lit ''Add salt.'']"
  by (simp add: crlf2_def lit_def)

lemma strip_soup:
  "py_strip (lit ''Boil water.'') = lit ''Boil water.''"
  "py_strip (lit '' '') = []"
  "py_strip (lit ''Add salt.'') = lit ''Add salt.''"
  "py_strip (lit '' quick '') = lit ''quick''"
  by (simp_all add: py_strip_def py_isspace_def lit_def)

lemma transform_soup: "transform_recipe soup = Inr soup_payload"
  unfolding transform_recipe_def collect_soup
  by (simp add: soup_def soup_fields_def soup_payload_def split_soup steps_of_def strip_soup)

lemma soup_image_url:
  "py_replace (lit ''<format>'') (lit ''crop-642x428'') (lit ''http://img/<format>/soup.jpg'') =
     lit ''http://img/crop-642x428/soup.jpg''"
  by (simp add: lit_def)


section \<open>The transformation: properties\<close>

text \<open>
  C1.  Whenever the transformation returns a payload, it has built the list of ingredients
  on the way, and the payload does not hold it: the payload has no \<open>ingredients\<close> field
  of its own, every step carries the empty list under \<open>ingredients\<close>, and the payload is
  the one the same recipe gives with the field \<open>ingredientGroups\<close> removed.
\<close>

theorem ingredients_discarded:
  assumes "transform_recipe rd = Inr p"
  shows "(\<exists>ings. collect_ingredients rd = Inr ings) \<and>
         subscript p (lit ''ingredients'') = Inl (KeyError (lit ''ingredients'')) \<and>
         (\<exists>steps. subscript p (lit ''steps'') = Inr (JArr steps) \<and>
            (\<forall>s\<in>set steps. subscript s (lit ''ingredients'') = Inr (JArr []))) \<and>
         transform_recipe (del_key (lit ''ingredientGroups'') rd) = Inr p"
proof -
  from assms obtain kvs where rd: "rd = JObj kvs"
    by (auto simp: transform_recipe_Inr_iff py_get_Inr_iff)
  from assms have "transform_recipe (del_key (lit ''ingredientGroups'') rd) = Inr p"
    unfolding transform_recipe_Inr_iff
    by (simp add: py_get_del_key subscript_del_key
        collect_ingredients_del_key [unfolded rd [symmetric]] rd)
  with assms show ?thesis
    unfolding transform_recipe_Inr_iff [of rd]
    by (auto simp: steps_of_ingredients)
qed

text \<open>The sample recipe has two ingredients, and its payload shows none of them.\<close>

theorem ingredients_discarded_witness:
  "transform_recipe soup = Inr soup_payload \<and>
   collect_ingredients soup = Inr soup_ingredients \<and>
   subscript soup_payload (lit ''ingredients'') = Inl (KeyError (lit ''ingredients'')) \<and>
   transform_recipe (del_key (lit ''ingredientGroups'') soup) = Inr soup_payload"
  using ingredients_discarded [OF transform_soup] transform_soup collect_soup
  by simp

text \<open>
  C7.  The steps of the payload are the segments that splitting the instructions at the
  double CRLF gives (the segments joined by the delimiter are the instructions again, and
  no segment contains the delimiter), without the segments made of whitespace only, each
  stripped, in the order of the text.  A recipe without instructions has no steps.
\<close>

theorem steps_from_instructions:
  assumes "transform_recipe rd = Inr p"
  shows "\<exists>s segs.
     py_get rd (lit ''instructions'') (JStr []) = Inr (JStr s) \<and>
     segs = py_split crlf2 s \<and>
     py_join crlf2 segs = s \<and>
     (\<forall>seg\<in>set segs. \<not> sublist crlf2 seg) \<and>
     subscript p (lit ''steps'') =
       Inr (JArr (map (\<lambda>seg. JObj [(lit ''instruction'', JStr (py_strip seg)),
                                   (lit ''ingredients'', JArr [])])
                   (filter (\<lambda>seg. \<not> list_all py_isspace seg) segs))) \<and>
     (subscript rd (lit ''instructions'') = Inl (KeyError (lit ''instructions'')) \<longrightarrow>
        subscript p (lit ''steps'') = Inr (JArr []))"
proof -
  from assms obtain s where s: "py_get rd (lit ''instructions'') (JStr []) = Inr (JStr s)"
    and p: "subscript p (lit ''steps'') = Inr (JArr (steps_of (py_split crlf2 s)))"
    unfolding transform_recipe_Inr_iff by auto
  have absent: "s = []"
    if "subscript rd (lit ''instructions'') = Inl (KeyError (lit ''instructions''))"
    using that s by (cases rd) (auto split: option.splits)
  have "steps_of (py_split crlf2 []) = []"
    by (simp add: steps_of_def)
  with s p absent show ?thesis
    by (auto simp: steps_of_def py_strip_empty_iff py_join_split [OF crlf2_not_Nil]
        dest: py_split_free [OF crlf2_not_Nil])
qed

text \<open>
  The sample instructions have three segments, the middle one a single blank; the payload
  keeps the first and the last.  A recipe with a title only has no steps.
\<close>

theorem steps_from_instructions_witness:
  "transform_recipe soup = Inr soup_payload \<and>
   py_split crlf2 (lit ''Boil water.'' @ crlf2 @ lit '' '' @ crlf2 @ lit ''Add salt.'') =
     [lit ''Boil water.'', lit '' '', lit ''Add salt.''] \<and>
   subscript soup_payload (lit ''steps'') =
     Inr (JArr [JObj [(lit ''instruction'', JStr (lit ''Boil water.'')), (lit ''ingredients'', JArr [])],
                JObj [(lit ''instruction'', JStr (lit ''Add salt.'')), (lit ''ingredients'', JArr [])]]) \<and>
   (\<exists>p. transform_recipe (JObj [(lit ''title'', JStr (lit ''Soup''))]) = Inr p \<and>
        subscript (JObj [(lit ''title'', JStr (lit ''Soup''))]) (lit ''instructions'') =
          Inl (KeyError (lit ''instructions'')) \<and>
        subscript p (lit ''steps'') = Inr (JArr []))"
proof -
  have bare: "\<exists>p. transform_recipe (JObj [(lit ''title'', JStr (lit ''Soup''))]) = Inr p"
    by (rule transform_recipe_ok [of _ "JStr (lit ''Soup'')"]) (simp_all add: well_typed_def)
  then obtain p where p: "transform_recipe (JObj [(lit ''title'', JStr (lit ''Soup''))]) = Inr p" ..
  have "subscript p (lit ''steps'') = Inr (JArr [])"
    using steps_from_instructions [OF p] by auto
  with p have 1: "\<exists>p. transform_recipe (JObj [(lit ''title'', JStr (lit ''Soup''))]) = Inr p \<and>
        subscript (JObj [(lit ''title'', JStr (lit ''Soup''))]) (lit ''instructions'') =
          Inl (KeyError (lit ''instructions'')) \<and>
        subscript p (lit ''steps'') = Inr (JArr [])"
    by auto
  have 2: "subscript soup_payload (lit ''steps'') =
     Inr (JArr [JObj [(lit ''instruction'', JStr (lit ''Boil water.'')), (lit ''ingredients'', JArr [])],
                JObj [(lit ''instruction'', JStr (lit ''Add salt.'')), (lit ''ingredients'', JArr [])]])"
    using steps_from_instructions [OF transform_soup]
    by (simp add: soup_payload_def)
  from 1 2 transform_soup split_soup show ?thesis by blast
qed

text \<open>
  C3 (as amended).  The keywords of the payload are the keywords of the tags that are kept,
  in order, followed by one appended entry \<open>{name: "pyimport"}\<close>, which is therefore the
  last element whatever the number of tags.  The entries \<open>{name: "pyimport"}\<close> number one
  more than the source tags that are the string \<open>"pyimport"\<close>: exactly one when no
  source tag is that string.
\<close>

theorem keywords_end_with_pyimport:
  assumes "transform_recipe rd = Inr p"
  shows "\<exists>tv tags.
           py_get rd (lit ''tags'') (JArr []) = Inr tv \<and> py_iter tv = Inr tags \<and>
           subscript p (lit ''keywords'') =
             Inr (JArr (map (\<lambda>t. JObj [(lit ''name'', t)]) (filter kept_tag tags)
                        @ [JObj [(lit ''name'', JStr (lit ''pyimport''))]])) \<and>
           count_list (map (\<lambda>t. JObj [(lit ''name'', t)]) (filter kept_tag tags)
                        @ [JObj [(lit ''name'', JStr (lit ''pyimport''))]])
                      (JObj [(lit ''name'', JStr (lit ''pyimport''))])
             = 1 + count_list tags (JStr (lit ''pyimport''))"
  using assms unfolding transform_recipe_Inr_iff
  by (auto simp: count_keywords dest!: keywords_of_Inr)

text \<open>
  A recipe tagged \<open>"pyimport"\<close> gets that keyword twice, so "exactly one such entry, even
  when a source tag is itself pyimport" does not hold.
\<close>

theorem pyimport_tag_twice:
  "transform_recipe (JObj [(lit ''title'', JStr (lit ''Salt'')),
                           (lit ''tags'', JArr [JStr (lit ''pyimport'')])]) =
     Inr (JObj [(lit ''name'', JStr (lit ''Salt'')),
                (lit ''description'', JStr []),
                (lit ''keywords'', JArr [JObj [(lit ''name'', JStr (lit ''pyimport''))],
                                         JObj [(lit ''name'', JStr (lit ''pyimport''))]]),
                (lit ''steps'', JArr []),
                (lit ''working_time'', JInt 0),
                (lit ''source_url'', JStr []),
                (lit ''servings'', JInt 0),
                (lit ''private'', JBool False)]) \<and>
   count_list [JObj [(lit ''name'', JStr (lit ''pyimport''))],
               JObj [(lit ''name'', JStr (lit ''pyimport''))]]
              (JObj [(lit ''name'', JStr (lit ''pyimport''))]) = 2"
  by (simp add: transform_recipe_def collect_ingredients_def steps_of_def py_strip_pyimport)

text \<open>The sample recipe has no such tag, and one keyword \<open>pyimport\<close>, the last.\<close>

theorem keywords_end_with_pyimport_witness:
  "transform_recipe soup = Inr soup_payload \<and>
   subscript soup_payload (lit ''keywords'') =
     Inr (JArr ([JObj [(lit ''name'', JStr (lit '' quick ''))]]
                @ [JObj [(lit ''name'', JStr (lit ''pyimport''))]])) \<and>
   count_list ([JObj [(lit ''name'', JStr (lit '' quick ''))]]
                @ [JObj [(lit ''name'', JStr (lit ''pyimport''))]])
              (JObj [(lit ''name'', JStr (lit ''pyimport''))]) = 1"
  using keywords_end_with_pyimport [OF transform_soup] transform_soup
  by (simp add: soup_payload_def)

text \<open>
  C10.  A tag that is kept becomes a keyword whose name is the tag as it stands in the
  source: the keywords before the appended one are the kept tags themselves, so a kept
  tag with blanks around it keeps them.
\<close>

theorem tags_kept_verbatim:
  assumes "transform_recipe rd = Inr p"
    and "py_get rd (lit ''tags'') (JArr []) = Inr tv" and "py_iter tv = Inr tags"
  shows "\<exists>ks. subscript p (lit ''keywords'') =
                 Inr (JArr (ks @ [JObj [(lit ''name'', JStr (lit ''pyimport''))]])) \<and>
           ks = map (\<lambda>t. JObj [(lit ''name'', t)]) (filter kept_tag tags) \<and>
           (\<forall>s. JStr s \<in> set tags \<and> py_strip s \<noteq> [] \<longrightarrow>
                JObj [(lit ''name'', JStr s)] \<in> set ks)"
  using assms unfolding transform_recipe_Inr_iff
  by (auto simp: kept_tag_def dest!: keywords_of_Inr)

text \<open>The sample tag \<open>" quick "\<close> strips to \<open>"quick"\<close> and is stored with its blanks.\<close>

theorem tags_kept_verbatim_witness:
  "transform_recipe soup = Inr soup_payload \<and>
   py_get soup (lit ''tags'') (JArr []) = Inr (JArr [JStr (lit '' quick ''), JStr [], JStr (lit '' '')]) \<and>
   py_iter (JArr [JStr (lit '' quick ''), JStr [], JStr (lit '' '')]) =
     Inr [JStr (lit '' quick ''), JStr [], JStr (lit '' '')] \<and>
   py_strip (lit '' quick '') = lit ''quick'' \<and>
   subscript soup_payload (lit ''keywords'') =
     Inr (JArr ([JObj [(lit ''name'', JStr (lit '' quick ''))]]
                @ [JObj [(lit ''name'', JStr (lit ''pyimport''))]]))"
proof -
  have g: "py_get soup (lit ''tags'') (JArr []) =
             Inr (JArr [JStr (lit '' quick ''), JStr [], JStr (lit '' '')])"
    by (simp add: soup_def soup_fields_def)
  have i: "py_iter (JArr [JStr (lit '' quick ''), JStr [], JStr (lit '' '')]) =
             Inr [JStr (lit '' quick ''), JStr [], JStr (lit '' '')]"
    by simp
  from tags_kept_verbatim [OF transform_soup g i]
  have "subscript soup_payload (lit ''keywords'') =
     Inr (JArr ([JObj [(lit ''name'', JStr (lit '' quick ''))]]
                @ [JObj [(lit ''name'', JStr (lit ''pyimport''))]]))"
    by (simp add: kept_tag_def strip_soup)
  with transform_soup g i strip_soup(4) show ?thesis by blast
qed

text \<open>
  C8.  Each entry of the list of ingredients comes from one ingredient of the groups, in
  document order.  Where the amount of the ingredient equals zero, the entry's amount is
  the empty string, not \<open>"0"\<close>; where it is a non-zero integer, it is its decimal
  numeral, which reads back as the integer; where it is a non-zero float, it is the
  text of that float.
\<close>

theorem zero_amount_is_empty_string:
  assumes "collect_ingredients rd = Inr out"
  shows "list_all2 (\<lambda>ing d. \<exists>a. subscript ing (lit ''amount'') = Inr a \<and>
            (\<not> ne_zero a \<longrightarrow> amount d = Text [] \<and> amount d \<noteq> Text (lit ''0'')) \<and>
            (\<forall>n. a = JInt n \<and> n \<noteq> 0 \<longrightarrow>
                amount d = Text (str_int n) \<and> int_of_decimal (str_int n) = n) \<and>
            (\<forall>r. a = JFloat r \<and> ne_zero a \<longrightarrow> amount d = Text r))
           (source_ingredients rd) out"
  using collect_ingredients_Inr [OF assms]
  by (rule list_all2_mono) (auto dest!: ingredient_entry_amount simp: int_of_decimal_str_int)

text \<open>The sample recipe: salt with amount 0, water with amount 2.\<close>

theorem zero_amount_is_empty_string_witness:
  "collect_ingredients soup = Inr soup_ingredients \<and>
   source_ingredients soup =
     [JObj [(lit ''name'', JStr (lit ''salt'')), (lit ''amount'', JInt 0), (lit ''unit'', JStr [])],
      JObj [(lit ''name'', JStr (lit ''water'')), (lit ''amount'', JInt 2),
            (lit ''unit'', JStr (lit ''l''))]] \<and>
   map amount soup_ingredients = [Text [], Text (str_int 2)] \<and>
   int_of_decimal (str_int 2) = 2"
proof -
  have src: "source_ingredients soup =
     [JObj [(lit ''name'', JStr (lit ''salt'')), (lit ''amount'', JInt 0), (lit ''unit'', JStr [])],
      JObj [(lit ''name'', JStr (lit ''water'')), (lit ''amount'', JInt 2),
            (lit ''unit'', JStr (lit ''l''))]]"
    by (simp add: source_ingredients_def group_ingredients_def soup_def soup_fields_def)
  obtain d1 d2 where out: "soup_ingredients = [d1, d2]"
    by (simp add: soup_ingredients_def)
  from zero_amount_is_empty_string [OF collect_soup]
  have "map amount soup_ingredients = [Text [], Text (str_int 2)] \<and>
        int_of_decimal (str_int 2) = 2"
    unfolding src out by simp
  with collect_soup src show ?thesis by blast
qed

text \<open>
  C4 (as amended).  The transformation fails whenever \<open>title\<close> is absent.  For a recipe
  whose \<open>ingredientGroups\<close>, \<open>instructions\<close> and \<open>tags\<close> are absent or of the shape of
  the data model, it returns a payload exactly when \<open>title\<close> is present, and without a
  title it fails with the KeyError for \<open>title\<close>; the other optional fields may be absent.
\<close>

theorem transform_fails_only_without_title:
  "(subscript rd (lit ''title'') = Inl e \<longrightarrow> (\<exists>e'. transform_recipe rd = Inl e')) \<and>
   (well_typed kvs \<longrightarrow>
      ((\<exists>p. transform_recipe (JObj kvs) = Inr p) \<longleftrightarrow> map_of kvs (lit ''title'') \<noteq> None) \<and>
      (map_of kvs (lit ''title'') = None \<longrightarrow>
         transform_recipe (JObj kvs) = Inl (KeyError (lit ''title''))))"
proof (intro conjI impI)
  assume "subscript rd (lit ''title'') = Inl e"
  then show "\<exists>e'. transform_recipe rd = Inl e'" by (rule transform_recipe_needs_title)
next
  assume w: "well_typed kvs"
  show "(\<exists>p. transform_recipe (JObj kvs) = Inr p) \<longleftrightarrow> map_of kvs (lit ''title'') \<noteq> None"
  proof
    assume "\<exists>p. transform_recipe (JObj kvs) = Inr p"
    then show "map_of kvs (lit ''title'') \<noteq> None"
      using transform_recipe_title by fastforce
  next
    assume "map_of kvs (lit ''title'') \<noteq> None"
    with w transform_recipe_ok show "\<exists>p. transform_recipe (JObj kvs) = Inr p" by auto
  qed
next
  assume "well_typed kvs" and "map_of kvs (lit ''title'') = None"
  then show "transform_recipe (JObj kvs) = Inl (KeyError (lit ''title''))"
    by (rule transform_recipe_no_title)
qed

text \<open>
  A recipe with a title and a group that has no \<open>ingredients\<close> makes the transformation
  fail, so a missing title is not its only failure.
\<close>

theorem group_without_ingredients_fails:
  "subscript (JObj [(lit ''title'', JStr (lit ''Soup'')),
                    (lit ''ingredientGroups'', JArr [JObj []])]) (lit ''title'') =
     Inr (JStr (lit ''Soup'')) \<and>
   transform_recipe (JObj [(lit ''title'', JStr (lit ''Soup'')),
                           (lit ''ingredientGroups'', JArr [JObj []])]) =
     Inl (KeyError (lit ''ingredients''))"
  by (simp add: transform_recipe_def collect_ingredients_def)

text \<open>The sample recipe is of that shape and has a title; the empty document has none.\<close>

theorem transform_fails_only_without_title_witness:
  "well_typed soup_fields \<and> map_of soup_fields (lit ''title'') \<noteq> None \<and>
   (\<exists>p. transform_recipe (JObj soup_fields) = Inr p) \<and>
   well_typed [] \<and> map_of [] (lit ''title'') = None \<and>
   subscript (JObj []) (lit ''title'') = Inl (KeyError (lit ''title'')) \<and>
   transform_recipe (JObj []) = Inl (KeyError (lit ''title''))"
proof -
  have 1: "well_typed soup_fields"
    by (simp add: well_typed_def soup_fields_def)
  have 2: "map_of soup_fields (lit ''title'') \<noteq> None"
    by (simp add: soup_fields_def)
  have 3: "well_typed []"
    by (simp add: well_typed_def)
  from transform_fails_only_without_title [of "JObj []" "KeyError (lit ''title'')" soup_fields] 1 2
  have 4: "\<exists>p. transform_recipe (JObj soup_fields) = Inr p" by blast
  from transform_fails_only_without_title [of "JObj []" "KeyError (lit ''title'')" "[]"] 3
  have 5: "transform_recipe (JObj []) = Inl (KeyError (lit ''title''))" by simp
  from 1 2 3 4 5 show ?thesis by simp
qed

section \<open>The import: properties\<close>







section \<open>The batch loop: properties\<close>

text \<open>
  C9 (as amended).  The loop never ends with an exception, and it makes one GET for every
  line of the URL file, in order, for the line stripped, whether or not what is left is
  empty.  In one iteration, a GET that raises or a body that does not parse is printed
  with the URL and the iteration ends normally; a parsed document is passed to
  \<open>import_recipe\<close>, and an exception that leaves it is printed in the same way.
\<close>

theorem batch_fetches_every_line:
  "(\<exists>chunks. main_loop w imp urls tr = (Inr (), tr @ concat chunks) \<and>
      list_all2 (\<lambda>line chunk. \<exists>rest. chunk = Request (Get [Text (py_strip line)]) # rest)
        urls chunks) \<and>
   process_url w imp line tr0 =
     (case w (tr0 @ [Request (Get [Text (py_strip line)])]) of
        Inl e \<Rightarrow>
          (Inr (), tr0 @ [Request (Get [Text (py_strip line)]),
                          Print [Text (lit ''Error processing URL ''), Text (py_strip line),
                                 Text (lit '': ''), Msg e]])
      | Inr response \<Rightarrow>
          (case json_result response of
             Inl e \<Rightarrow>
               (Inr (), tr0 @ [Request (Get [Text (py_strip line)]),
                               Print [Text (lit ''Error processing URL ''), Text (py_strip line),
                                      Text (lit '': ''), Msg e]])
           | Inr recipe_data \<Rightarrow>
               (case import_recipe w imp recipe_data (tr0 @ [Request (Get [Text (py_strip line)])]) of
                  (Inr u, tr') \<Rightarrow> (Inr u, tr')
                | (Inl e, tr') \<Rightarrow>
                    (Inr (), tr' @ [Print [Text (lit ''Error processing URL ''), Text (py_strip line),
                                           Text (lit '': ''), Msg e]]))))"
  using main_loop_runs [of w imp urls tr] process_url_cases [of w imp line tr0]
  by blast

text \<open>
  A URL file of two lines, the second one blank, with no connection: the loop makes a GET
  for the empty URL of the blank line too, and prints its failure, so the lines fetched
  are not the non-empty ones only.
\<close>

theorem blank_line_is_fetched:
  "main_loop offline tandoor [lit ''http://a/1.json'' @ [10], [10]] [] =
   (Inr (),
    [Request (Get [Text (lit ''http://a/1.json'')]),
     Print [Text (lit ''Error processing URL ''), Text (lit ''http://a/1.json''), Text (lit '': ''),
            Msg (RequestException (lit ''no connection''))],
     Request (Get [Text []]),
     Print [Text (lit ''Error processing URL ''), Text [], Text (lit '': ''),
            Msg (RequestException (lit ''no connection''))]])"
proof -
  have "py_strip (lit ''http://a/1.json'' @ [10]) = lit ''http://a/1.json''"
    by (simp add: py_strip_def py_isspace_def lit_def)
  moreover have "py_strip [10] = []"
    by (simp add: py_strip_def py_isspace_def)
  ultimately show ?thesis
    by (simp add: process_url_cases offline_def and_then_def)
qed

text \<open>
  A URL file of one line, in the world that delivers the sample document: the document is
  fetched, the recipe created, the image downloaded and uploaded, and success printed.
\<close>

theorem batch_fetches_every_line_witness:
  "main_loop serving tandoor [lit ''http://a/soup.json'' @ [10]] [] =
     (Inr (),
      [Request (Get [Text (lit ''http://a/soup.json'')]),
       Request soup_post,
       Request (Get [Text (lit ''http://img/crop-642x428/soup.jpg'')]),
       Request (Put [Text (lit ''https://tandoor.your.domain''), Text (lit ''/api/recipe/''),
                     Text (lit ''42''), Text (lit ''/image/'')]
                  [(lit ''Authorization'', [Text (lit ''Token ''), Text (lit ''t0ken'')])]
                  [(lit ''image'', Some (lit ''image.jpg''), Bytes [255, 216, 255],
                    Some (lit ''image/jpeg'')),
                   (lit ''image_url'', None, Chars (lit ''http://img/crop-642x428/soup.jpg''), None)]),
       Print [Text (lit ''Recipe '' @ [39]), Text (lit ''Soup''),
              Text (39 # lit '' successfully imported'')],
       Sleep 1])"
proof -
  have s: "py_strip (lit ''http://a/soup.json'' @ [10]) = lit ''http://a/soup.json''"
    by (simp add: py_strip_def py_isspace_def lit_def)
  have n: "str_int 42 = lit ''42''"
    by (simp add: str_int_def str_nat.simps lit_def)
  have t: "subscript soup (lit ''title'') = Inr (JStr (lit ''Soup''))"
    and g1: "subscript soup (lit ''previewImageUrlTemplate'') =
               Inr (JStr (lit ''http://img/<format>/soup.jpg''))"
    and g2: "py_get soup (lit ''previewImageUrlTemplate'') JNull =
               Inr (JStr (lit ''http://img/<format>/soup.jpg''))"
    by (simp_all add: soup_def soup_fields_def)
  have i: "import_recipe serving tandoor soup [Request (Get [Text (lit ''http://a/soup.json'')])] =
     (Inr (),
      [Request (Get [Text (lit ''http://a/soup.json'')]),
       Request soup_post,
       Request (Get [Text (lit ''http://img/crop-642x428/soup.jpg'')]),
       Request (Put [Text (lit ''https://tandoor.your.domain''), Text (lit ''/api/recipe/''),
                     Text (lit ''42''), Text (lit ''/image/'')]
                  [(lit ''Authorization'', [Text (lit ''Token ''), Text (lit ''t0ken'')])]
                  [(lit ''image'', Some (lit ''image.jpg''), Bytes [255, 216, 255],
                    Some (lit ''image/jpeg'')),
                   (lit ''image_url'', None, Chars (lit ''http://img/crop-642x428/soup.jpg''), None)]),
       Print [Text (lit ''Recipe '' @ [39]), Text (lit ''Soup''),
              Text (39 # lit '' successfully imported'')],
       Sleep 1])"
    by (simp add: import_recipe_def import_try_def add_image_def image_try_def title_field_def
        action_defs serving_def created_def soup_document_def accepted_def soup_post_def
        tandoor_def new_importer_def transform_soup t g1 g2 soup_image_url n)
  from batch_fetches_every_line
         [of serving tandoor "[]" "[]" "lit ''http://a/soup.json'' @ [10]" "[]"]
  have "process_url serving tandoor (lit ''http://a/soup.json'' @ [10]) [] =
     (Inr (),
      [Request (Get [Text (lit ''http://a/soup.json'')]),
       Request soup_post,
       Request (Get [Text (lit ''http://img/crop-642x428/soup.jpg'')]),
       Request (Put [Text (lit ''https://tandoor.your.domain''), Text (lit ''/api/recipe/''),
                     Text (lit ''42''), Text (lit ''/image/'')]
                  [(lit ''Authorization'', [Text (lit ''Token ''), Text (lit ''t0ken'')])]
                  [(lit ''image'', Some (lit ''image.jpg''), Bytes [255, 216, 255],
                    Some (lit ''image/jpeg'')),
                   (lit ''image_url'', None, Chars (lit ''http://img/crop-642x428/soup.jpg''), None)]),
       Print [Text (lit ''Recipe '' @ [39]), Text (lit ''Soup''),
              Text (39 # lit '' successfully imported'')],
       Sleep 1])"
    by (simp add: s i serving_def soup_document_def)
  then show ?thesis
    by (simp add: and_then_def)
qed

end
